theory Spec2Isabelle
  imports Complex_Main "HOL-Library.Multiset"
begin

section \<open>Floating-point values\<close>

text \<open>
  The script computes on pandas columns of 64-bit floats. Three kinds of value decide the
  control flow of the code: finite numbers, the two infinities that a division by zero
  produces, and NaN, which pandas uses for a missing entry and which every comparison
  answers with False. A finite float is modelled as a real number with exact arithmetic
  (rounding and overflow are not modelled); the non-finite values are constructors of their
  own. Signed zeros are not modelled: a positive number divided by zero is \<open>PInf\<close>,
  where pandas can have the negative infinity (the loss of a rising day is a negative
  zero); the RSI is 100 for either (lemma \<open>rsi_of_infinite\<close>).
\<close>

datatype fl = Fin real | PInf | MInf | NaN

fun fl_lt :: "fl \<Rightarrow> fl \<Rightarrow> bool" where
  "fl_lt NaN _ = False"
| "fl_lt _ NaN = False"
| "fl_lt (Fin a) (Fin b) = (a < b)"
| "fl_lt (Fin a) PInf = True"
| "fl_lt (Fin a) MInf = False"
| "fl_lt MInf MInf = False"
| "fl_lt MInf _ = True"
| "fl_lt PInf _ = False"

fun fl_le :: "fl \<Rightarrow> fl \<Rightarrow> bool" where
  "fl_le NaN _ = False"
| "fl_le _ NaN = False"
| "fl_le (Fin a) (Fin b) = (a \<le> b)"
| "fl_le (Fin a) PInf = True"
| "fl_le (Fin a) MInf = False"
| "fl_le MInf _ = True"
| "fl_le PInf PInf = True"
| "fl_le PInf _ = False"

definition fl_gt :: "fl \<Rightarrow> fl \<Rightarrow> bool" where
  "fl_gt a b = fl_lt b a"

definition fl_ge :: "fl \<Rightarrow> fl \<Rightarrow> bool" where
  "fl_ge a b = fl_le b a"

text \<open>
  Arithmetic follows IEEE 754 on the special values: NaN is absorbing, opposite infinities
  cancel to NaN, zero times infinity is NaN, and a division by zero raises nothing (numpy
  arrays divide to an infinity, or to NaN for zero by zero).
\<close>

fun fl_add :: "fl \<Rightarrow> fl \<Rightarrow> fl" where
  "fl_add NaN _ = NaN"
| "fl_add _ NaN = NaN"
| "fl_add (Fin a) (Fin b) = Fin (a + b)"
| "fl_add PInf MInf = NaN"
| "fl_add MInf PInf = NaN"
| "fl_add PInf _ = PInf"
| "fl_add _ PInf = PInf"
| "fl_add MInf _ = MInf"
| "fl_add _ MInf = MInf"

fun fl_neg :: "fl \<Rightarrow> fl" where
  "fl_neg NaN = NaN"
| "fl_neg (Fin a) = Fin (- a)"
| "fl_neg PInf = MInf"
| "fl_neg MInf = PInf"

definition fl_sub :: "fl \<Rightarrow> fl \<Rightarrow> fl" where
  "fl_sub a b = fl_add a (fl_neg b)"

fun fl_mul :: "fl \<Rightarrow> fl \<Rightarrow> fl" where
  "fl_mul NaN _ = NaN"
| "fl_mul _ NaN = NaN"
| "fl_mul (Fin a) (Fin b) = Fin (a * b)"
| "fl_mul (Fin a) PInf = (if a = 0 then NaN else if 0 < a then PInf else MInf)"
| "fl_mul (Fin a) MInf = (if a = 0 then NaN else if 0 < a then MInf else PInf)"
| "fl_mul PInf (Fin b) = (if b = 0 then NaN else if 0 < b then PInf else MInf)"
| "fl_mul MInf (Fin b) = (if b = 0 then NaN else if 0 < b then MInf else PInf)"
| "fl_mul PInf PInf = PInf"
| "fl_mul PInf MInf = MInf"
| "fl_mul MInf PInf = MInf"
| "fl_mul MInf MInf = PInf"

fun fl_div :: "fl \<Rightarrow> fl \<Rightarrow> fl" where
  "fl_div NaN _ = NaN"
| "fl_div _ NaN = NaN"
| "fl_div (Fin a) (Fin b) =
     (if b = 0 then (if a = 0 then NaN else if 0 < a then PInf else MInf) else Fin (a / b))"
| "fl_div (Fin a) PInf = Fin 0"
| "fl_div (Fin a) MInf = Fin 0"
| "fl_div PInf (Fin b) = (if b < 0 then MInf else PInf)"
| "fl_div MInf (Fin b) = (if b < 0 then PInf else MInf)"
| "fl_div PInf _ = NaN"
| "fl_div MInf _ = NaN"

primrec fl_sum :: "fl list \<Rightarrow> fl" where
  "fl_sum [] = Fin 0"
| "fl_sum (x # xs) = fl_add x (fl_sum xs)"

section \<open>Series operations of pandas\<close>

text \<open>
  A Series is the list of its values in index order. \<^verbatim>\<open>rolling(n).mean()\<close> has
  \<^verbatim>\<open>min_periods = n\<close>: the entry at position \<open>i\<close> is the mean of the non-missing values
  among the last \<open>n\<close> entries up to and including \<open>i\<close>, and NaN when fewer than \<open>n\<close> of them
  are present. \<^verbatim>\<open>diff()\<close> has NaN at position 0. \<^verbatim>\<open>clip\<close> leaves NaN alone.
\<close>

definition window :: "nat \<Rightarrow> nat \<Rightarrow> 'a list \<Rightarrow> 'a list" where
  "window n i xs = drop (i + 1 - n) (take (i + 1) xs)"

definition window_mean :: "nat \<Rightarrow> fl list \<Rightarrow> fl" where
  "window_mean n w =
     (let obs = filter (\<lambda>x. x \<noteq> NaN) w
      in if length obs < n then NaN else fl_div (fl_sum obs) (Fin (real (length obs))))"

definition rolling_mean :: "nat \<Rightarrow> fl list \<Rightarrow> fl list" where
  "rolling_mean n xs = map (\<lambda>i. window_mean n (window n i xs)) [0..<length xs]"

definition diff :: "fl list \<Rightarrow> fl list" where
  "diff xs = map (\<lambda>i. if i = 0 then NaN else fl_sub (xs ! i) (xs ! (i - 1))) [0..<length xs]"

definition clip_lower :: "fl \<Rightarrow> fl \<Rightarrow> fl" where
  "clip_lower lo x = (if fl_lt x lo then lo else x)"

definition clip_upper :: "fl \<Rightarrow> fl \<Rightarrow> fl" where
  "clip_upper hi x = (if fl_gt x hi then hi else x)"

datatype error = KeyError string | IndexError | Stop string

text \<open>\<^verbatim>\<open>s.iloc[k]\<close>: a negative position counts from the end; outside the Series it raises.\<close>

definition iloc :: "'a list \<Rightarrow> int \<Rightarrow> error + 'a" where
  "iloc xs k =
     (if 0 \<le> k \<and> k < int (length xs) then Inr (xs ! nat k)
      else if k < 0 \<and> - k \<le> int (length xs) then Inr (xs ! nat (int (length xs) + k))
      else Inl IndexError)"

text \<open>
  A DataFrame: its row index (dates as day numbers) and its columns in order, each column
  a list of values by row position.
\<close>

record frame =
  index :: "nat list"
  columns :: "(string \<times> fl list) list"

definition getitem :: "frame \<Rightarrow> string \<Rightarrow> error + fl list" where
  "getitem df c = (case map_of (columns df) c of None \<Rightarrow> Inl (KeyError c) | Some v \<Rightarrow> Inr v)"

section \<open>Quadrant classification\<close>

text \<open>
  \<^verbatim>\<open>get_quadrant\<close> of \<^verbatim>\<open>app.py\<close>: an if/elif chain over the two coordinates, with the
  labels as the strings the script uses.
\<close>

definition get_quadrant :: "fl \<Rightarrow> fl \<Rightarrow> string" where
  "get_quadrant rs_ratio rs_momentum =
     (if fl_ge rs_ratio (Fin 100) \<and> fl_ge rs_momentum (Fin 100) then ''Leading''
      else if fl_ge rs_ratio (Fin 100) \<and> fl_lt rs_momentum (Fin 100) then ''Weakening''
      else if fl_lt rs_ratio (Fin 100) \<and> fl_lt rs_momentum (Fin 100) then ''Lagging''
      else ''Improving'')"

section \<open>Daily entry signal\<close>

text \<open>
  Lines 36 to 46 of \<^verbatim>\<open>daily_entry_signal\<close>: the 20-day average, and the RSI from the
  14-day means of the clipped daily changes.
\<close>

definition sma20 :: "fl list \<Rightarrow> fl list" where
  "sma20 close = rolling_mean 20 close"

definition gain :: "fl list \<Rightarrow> fl list" where
  "gain close = map (clip_lower (Fin 0)) (diff close)"

definition loss :: "fl list \<Rightarrow> fl list" where
  "loss close = map fl_neg (map (clip_upper (Fin 0)) (diff close))"

definition avg_gain :: "fl list \<Rightarrow> fl list" where
  "avg_gain close = rolling_mean 14 (gain close)"

definition avg_loss :: "fl list \<Rightarrow> fl list" where
  "avg_loss close = rolling_mean 14 (loss close)"

definition rsi_of :: "fl \<Rightarrow> fl" where
  "rsi_of rs = fl_sub (Fin 100) (fl_div (Fin 100) (fl_add (Fin 1) rs))"

definition rsi :: "fl list \<Rightarrow> fl list" where
  "rsi close = map rsi_of (map2 fl_div (avg_gain close) (avg_loss close))"

definition daily_entry_signal :: "frame \<Rightarrow> error + string" where
  "daily_entry_signal df =
     (case getitem df ''Close'' of Inl e \<Rightarrow> Inl e | Inr close \<Rightarrow>
      if length close < 21 then Inr ''NO''
      else
        (case iloc close (- 1) of Inl e \<Rightarrow> Inl e | Inr price_now \<Rightarrow>
         case iloc (sma20 close) (- 1) of Inl e \<Rightarrow> Inl e | Inr sma_now \<Rightarrow>
         case iloc (rsi close) (- 1) of Inl e \<Rightarrow> Inl e | Inr rsi_now \<Rightarrow>
         case iloc (rsi close) (- 2) of Inl e \<Rightarrow> Inl e | Inr rsi_prev \<Rightarrow>
           Inr (if fl_gt price_now sma_now \<and> fl_gt rsi_now (Fin 55) \<and> fl_gt rsi_now rsi_prev
                then ''YES'' else ''NO'')))"

subsection \<open>The entry rule as the specification words it\<close>

text \<open>
  The specification states the rule on the closing prices themselves, as real numbers,
  with each window written out: the 20-period mean of the close, the gain and loss of a
  day as the positive and negative part of its change, their 14-period means, and
  \<open>RSI = 100 - 100 / (1 + RS)\<close>. It gives the value 100 to a zero average loss; for a
  window without any change (zero by zero) there is no RSI and no comparison with it holds.
\<close>

definition spec_sma20 :: "real list \<Rightarrow> nat \<Rightarrow> real" where
  "spec_sma20 c t = sum_list (map (nth c) [t - 19..<Suc t]) / 20"

definition spec_gain :: "real list \<Rightarrow> nat \<Rightarrow> real" where
  "spec_gain c k = max (c ! k - c ! (k - 1)) 0"

definition spec_loss :: "real list \<Rightarrow> nat \<Rightarrow> real" where
  "spec_loss c k = max (- (c ! k - c ! (k - 1))) 0"

definition spec_avg_gain :: "real list \<Rightarrow> nat \<Rightarrow> real" where
  "spec_avg_gain c t = sum_list (map (spec_gain c) [t - 13..<Suc t]) / 14"

definition spec_avg_loss :: "real list \<Rightarrow> nat \<Rightarrow> real" where
  "spec_avg_loss c t = sum_list (map (spec_loss c) [t - 13..<Suc t]) / 14"

definition spec_rsi :: "real list \<Rightarrow> nat \<Rightarrow> real option" where
  "spec_rsi c t =
     (if spec_avg_loss c t = 0 then (if spec_avg_gain c t = 0 then None else Some 100)
      else Some (100 - 100 / (1 + spec_avg_gain c t / spec_avg_loss c t)))"

definition spec_rsi_above :: "real list \<Rightarrow> nat \<Rightarrow> real \<Rightarrow> bool" where
  "spec_rsi_above c t x = (case spec_rsi c t of None \<Rightarrow> False | Some r \<Rightarrow> x < r)"

definition spec_rsi_rising :: "real list \<Rightarrow> nat \<Rightarrow> bool" where
  "spec_rsi_rising c t =
     (case spec_rsi c t of None \<Rightarrow> False
      | Some r \<Rightarrow> (case spec_rsi c (t - 1) of None \<Rightarrow> False | Some p \<Rightarrow> p < r))"

section \<open>The script\<close>

text \<open>
  The script runs top to bottom on every page load. Its inputs are the sidebar choices
  and what the price provider returns; \<^verbatim>\<open>yf.download\<close> is a function of the ticker and
  the period here, the same for the whole run. The script reads \<^verbatim>\<open>period\<close> in line 138,
  above the sidebar control that assigns it, and reads a name \<^verbatim>\<open>benchmark\<close> in line 214
  that it assigns nowhere; both are inputs of the model. The calendar that
  \<^verbatim>\<open>resample\<close> needs (the week ending on Friday and the month of a day) is an input too.
  \<^verbatim>\<open>st.error(msg)\<close> followed by \<^verbatim>\<open>st.stop()\<close> is the error \<open>Stop msg\<close>.
\<close>

record config =
  download :: "string \<Rightarrow> string \<Rightarrow> frame"
  period :: string
  benchmark :: string
  rrg_timeframe :: string
  mode :: string
  week_of :: "nat \<Rightarrow> nat"
  month_of :: "nat \<Rightarrow> nat"

definition benchmark_candidates :: "(string \<times> string) list" where
  "benchmark_candidates =
     [(''NIFTY 50 (ETF)'', ''NIFTYBEES.NS''),
      (''NIFTY 50 (Index)'', ''^NSEI''),
      (''Bank Nifty (ETF)'', ''BANKBEES.NS'')]"

definition sectors :: "(string \<times> string) list" where
  "sectors =
     [(''Bank'', ''^NSEBANK''), (''IT'', ''^CNXIT''), (''FMCG'', ''^CNXFMCG''),
      (''Auto'', ''^CNXAUTO''), (''Pharma'', ''^CNXPHARMA''), (''Metal'', ''^CNXMETAL''),
      (''Energy'', ''^CNXENERGY'')]"

definition df_empty :: "frame \<Rightarrow> bool" where
  "df_empty df = (index df = [] \<or> columns df = [])"

definition has_column :: "frame \<Rightarrow> string \<Rightarrow> bool" where
  "has_column df c = (c \<in> set (map fst (columns df)))"

text \<open>Lines 137 to 151: the first candidate whose download is usable.\<close>

fun first_benchmark :: "(string \<Rightarrow> frame) \<Rightarrow> (string \<times> string) list \<Rightarrow> (string \<times> string \<times> frame) option" where
  "first_benchmark dl [] = None"
| "first_benchmark dl ((name, symbol) # rest) =
     (if \<not> df_empty (dl symbol) \<and> has_column (dl symbol) ''Close''
      then Some (name, symbol, dl symbol)
      else first_benchmark dl rest)"

definition candidates_message :: string where
  "candidates_message =
     ''Benchmark data could not be loaded from Yahoo Finance.'' @ [CHR 0x0A, CHR 0x0A]
     @ ''This is a temporary Yahoo Finance cloud issue.'' @ [CHR 0x0A]
     @ ''Please refresh the app after a few seconds.''"

definition benchmark_message :: string where
  "benchmark_message =
     ''Benchmark data (NIFTY 50) could not be loaded. Please refresh the app.''"

text \<open>
  \<^verbatim>\<open>prices[name] = series\<close>: a frame without rows takes the index of the Series; otherwise
  the Series is aligned to the index of the frame, NaN where it has no entry for a date.
  An existing column of that name is replaced, a new one is appended.
\<close>

definition reindex :: "nat list \<Rightarrow> nat list \<times> fl list \<Rightarrow> fl list" where
  "reindex new_index s =
     map (\<lambda>t. case map_of (zip (fst s) (snd s)) t of None \<Rightarrow> NaN | Some v \<Rightarrow> v) new_index"

fun set_column :: "string \<Rightarrow> fl list \<Rightarrow> (string \<times> fl list) list \<Rightarrow> (string \<times> fl list) list" where
  "set_column k v [] = [(k, v)]"
| "set_column k v ((k', v') # cs) = (if k' = k then (k, v) # cs else (k', v') # set_column k v cs)"

definition setitem :: "frame \<Rightarrow> string \<Rightarrow> nat list \<times> fl list \<Rightarrow> frame" where
  "setitem df name s =
     (if index df = [] \<and> snd s \<noteq> []
      then \<lparr>index = fst s,
            columns = set_column name (snd s)
              (map (\<lambda>(k, v). (k, replicate (length (fst s)) NaN)) (columns df))\<rparr>
      else df\<lparr>columns := set_column name (reindex (index df) s) (columns df)\<rparr>)"

text \<open>Lines 223 to 229: a sector whose download is empty or has no close is skipped.\<close>

fun add_sectors :: "config \<Rightarrow> (string \<times> string) list \<Rightarrow> frame \<Rightarrow> error + frame" where
  "add_sectors cfg [] prices = Inr prices"
| "add_sectors cfg ((name, ticker) # rest) prices =
     (let df = download cfg ticker (period cfg)
      in if df_empty df \<or> \<not> has_column df ''Close'' then add_sectors cfg rest prices
         else (case getitem df ''Close'' of Inl e \<Rightarrow> Inl e
               | Inr close \<Rightarrow> add_sectors cfg rest (setitem prices name (index df, close))))"

text \<open>\<^verbatim>\<open>dropna\<close>: the rows without a missing value, in order.\<close>

definition take_rows :: "nat list \<Rightarrow> frame \<Rightarrow> frame" where
  "take_rows keep df =
     \<lparr>index = map (nth (index df)) keep,
      columns = map (\<lambda>(k, v). (k, map (nth v) keep)) (columns df)\<rparr>"

definition dropna :: "frame \<Rightarrow> frame" where
  "dropna df =
     take_rows (filter (\<lambda>i. list_all (\<lambda>c. snd c ! i \<noteq> NaN) (columns df)) [0..<length (index df)]) df"

text \<open>
  \<^verbatim>\<open>resample(rule).last()\<close> on a frame without missing values: the last row of every
  calendar bin that has a row. (pandas also makes an all-NaN row for a bin without any
  row; the \<^verbatim>\<open>dropna\<close> of line 242 removes it again.)
\<close>

definition resample_last :: "(nat \<Rightarrow> nat) \<Rightarrow> frame \<Rightarrow> frame" where
  "resample_last bin df =
     take_rows
       (filter (\<lambda>i. Suc i = length (index df) \<or> bin (index df ! Suc i) \<noteq> bin (index df ! i))
          [0..<length (index df)]) df"

definition apply_timeframe :: "config \<Rightarrow> frame \<Rightarrow> frame" where
  "apply_timeframe cfg prices =
     (if rrg_timeframe cfg = ''Weekly'' then resample_last (week_of cfg) prices
      else if rrg_timeframe cfg = ''Monthly'' then resample_last (month_of cfg) prices
      else prices)"

text \<open>
  Lines 247 to 249. Selecting a list of columns raises \<open>KeyError\<close> when one of them is
  missing (pandas names all the missing ones; the model names the first). The three
  tables have the same index and columns, so the arithmetic is column by column.
\<close>

fun select_columns :: "(string \<times> fl list) list \<Rightarrow> string list \<Rightarrow> error + (string \<times> fl list) list" where
  "select_columns cols [] = Inr []"
| "select_columns cols (k # ks) =
     (case map_of cols k of None \<Rightarrow> Inl (KeyError k)
      | Some v \<Rightarrow> (case select_columns cols ks of Inl e \<Rightarrow> Inl e | Inr r \<Rightarrow> Inr ((k, v) # r)))"

definition frame_map :: "(fl list \<Rightarrow> fl list) \<Rightarrow> frame \<Rightarrow> frame" where
  "frame_map f df = df\<lparr>columns := map (\<lambda>(k, v). (k, f v)) (columns df)\<rparr>"

definition rs :: "frame \<Rightarrow> error + frame" where
  "rs prices =
     (case select_columns (columns prices) (map fst sectors) of Inl e \<Rightarrow> Inl e
      | Inr sel \<Rightarrow>
        (case getitem prices ''Benchmark'' of Inl e \<Rightarrow> Inl e
         | Inr b \<Rightarrow> Inr (frame_map (\<lambda>v. map2 fl_div v b) \<lparr>index = index prices, columns = sel\<rparr>)))"

definition ratio_to_rolling_mean :: "fl list \<Rightarrow> fl list" where
  "ratio_to_rolling_mean v = map2 fl_div (map (fl_mul (Fin 100)) v) (rolling_mean 14 v)"

definition rs_ratio :: "frame \<Rightarrow> frame" where
  "rs_ratio rs_table = frame_map ratio_to_rolling_mean rs_table"

definition rs_momentum :: "frame \<Rightarrow> frame" where
  "rs_momentum rs_ratio_table = frame_map ratio_to_rolling_mean rs_ratio_table"

text \<open>Lines 254 to 258.\<close>

definition daily_prices :: "config \<Rightarrow> string \<Rightarrow> frame" where
  "daily_prices cfg ticker = dropna (download cfg ticker ''6mo'')"

text \<open>
  \<^verbatim>\<open>round(x, 2)\<close> on a numpy float: to the nearest hundredth, a tie to the even one;
  NaN and the infinities stay.
\<close>

definition rint :: "real \<Rightarrow> int" where
  "rint y =
     (if y - of_int \<lfloor>y\<rfloor> < 1 / 2 then \<lfloor>y\<rfloor>
      else if 1 / 2 < y - of_int \<lfloor>y\<rfloor> then \<lfloor>y\<rfloor> + 1
      else if even \<lfloor>y\<rfloor> then \<lfloor>y\<rfloor> else \<lfloor>y\<rfloor> + 1)"

fun round2 :: "fl \<Rightarrow> fl" where
  "round2 (Fin x) = Fin (of_int (rint (x * 100)) / 100)"
| "round2 v = v"

text \<open>Lines 263 to 283: one row per configured sector, from the last row of the tables.\<close>

record row =
  sector :: string
  ratio :: fl
  momentum :: fl
  quadrant :: string
  daily_entry :: string

definition dash :: string where
  "dash = [CHR 0xE2, CHR 0x80, CHR 0x94]"

definition daily_signal_for :: "config \<Rightarrow> string \<Rightarrow> string \<Rightarrow> error + string" where
  "daily_signal_for cfg ticker q =
     (if rrg_timeframe cfg = ''Weekly'' \<and> q \<in> set [''Leading'', ''Improving'']
      then daily_entry_signal (daily_prices cfg ticker)
      else if rrg_timeframe cfg = ''Weekly'' then Inr dash
      else Inr ''N/A'')"

fun latest_data :: "config \<Rightarrow> frame \<Rightarrow> frame \<Rightarrow> (string \<times> string) list \<Rightarrow> error + row list" where
  "latest_data cfg rs_ratio_table rs_momentum_table [] = Inr []"
| "latest_data cfg rs_ratio_table rs_momentum_table ((name, ticker) # rest) =
     (case getitem rs_ratio_table name of Inl e \<Rightarrow> Inl e | Inr rcol \<Rightarrow>
      case iloc rcol (- 1) of Inl e \<Rightarrow> Inl e | Inr r \<Rightarrow>
      case getitem rs_momentum_table name of Inl e \<Rightarrow> Inl e | Inr mcol \<Rightarrow>
      case iloc mcol (- 1) of Inl e \<Rightarrow> Inl e | Inr m \<Rightarrow>
      case daily_signal_for cfg ticker (get_quadrant r m) of Inl e \<Rightarrow> Inl e | Inr daily_signal \<Rightarrow>
      case latest_data cfg rs_ratio_table rs_momentum_table rest of Inl e \<Rightarrow> Inl e | Inr rows \<Rightarrow>
        Inr (\<lparr>sector = name, ratio = round2 r, momentum = round2 m,
              quadrant = get_quadrant r m, daily_entry = daily_signal\<rparr> # rows))"

text \<open>
  Lines 287 to 295. \<^verbatim>\<open>map(quadrant_order)\<close> gives NaN for a label outside the dictionary.
  \<^verbatim>\<open>sort_values\<close> on two keys is a stable sort, the first key ascending, the second
  descending, a NaN key after every number in both; it is modelled as a stable insertion
  sort.
\<close>

definition quadrant_order :: "string \<Rightarrow> nat option" where
  "quadrant_order = map_of [(''Leading'', 0), (''Improving'', 1), (''Weakening'', 2), (''Lagging'', 3)]"

definition order_key :: "row \<Rightarrow> fl" where
  "order_key r = (case quadrant_order (quadrant r) of None \<Rightarrow> NaN | Some n \<Rightarrow> Fin (real n))"

definition ascending_le :: "fl \<Rightarrow> fl \<Rightarrow> bool" where
  "ascending_le a b = (b = NaN \<or> (a \<noteq> NaN \<and> fl_le a b))"

definition descending_le :: "fl \<Rightarrow> fl \<Rightarrow> bool" where
  "descending_le a b = (b = NaN \<or> (a \<noteq> NaN \<and> fl_ge a b))"

definition row_le :: "row \<Rightarrow> row \<Rightarrow> bool" where
  "row_le a b =
     (if order_key a = order_key b then descending_le (ratio a) (ratio b)
      else ascending_le (order_key a) (order_key b))"

fun insort_by :: "('a \<Rightarrow> 'a \<Rightarrow> bool) \<Rightarrow> 'a \<Rightarrow> 'a list \<Rightarrow> 'a list" where
  "insort_by le x [] = [x]"
| "insort_by le x (y # ys) = (if le x y then x # y # ys else y # insort_by le x ys)"

definition sort_values :: "row list \<Rightarrow> row list" where
  "sort_values rows = foldr (insort_by row_le) rows []"

text \<open>Lines 297 to 301: the count of every label that occurs, then the four labels with 0 for an absent one.\<close>

definition value_counts :: "string list \<Rightarrow> (string \<times> nat) list" where
  "value_counts xs = map (\<lambda>k. (k, count_list xs k)) (remdups xs)"

definition reindex_fill :: "string list \<Rightarrow> nat \<Rightarrow> (string \<times> nat) list \<Rightarrow> (string \<times> nat) list" where
  "reindex_fill labels fill_value counts =
     map (\<lambda>k. (k, case map_of counts k of None \<Rightarrow> fill_value | Some n \<Rightarrow> n)) labels"

definition quadrant_counts :: "row list \<Rightarrow> (string \<times> nat) list" where
  "quadrant_counts ranking_df =
     reindex_fill [''Leading'', ''Improving'', ''Weakening'', ''Lagging''] 0
       (value_counts (map quadrant ranking_df))"

text \<open>Lines 192 and 322 to 331: the tails that are plotted; the marker of the last point reads \<^verbatim>\<open>x.iloc[-1]\<close>.\<close>

definition tail_length :: "config \<Rightarrow> nat" where
  "tail_length cfg = (if mode cfg = ''Swing'' then 5 else 10)"

definition last_n :: "nat \<Rightarrow> 'a list \<Rightarrow> 'a list" where
  "last_n n xs = drop (length xs - n) xs"

fun tails :: "config \<Rightarrow> frame \<Rightarrow> frame \<Rightarrow> (string \<times> string) list \<Rightarrow> error + (string \<times> fl list \<times> fl list) list" where
  "tails cfg rs_ratio_table rs_momentum_table [] = Inr []"
| "tails cfg rs_ratio_table rs_momentum_table ((name, ticker) # rest) =
     (case getitem rs_ratio_table name of Inl e \<Rightarrow> Inl e | Inr rcol \<Rightarrow>
      case getitem rs_momentum_table name of Inl e \<Rightarrow> Inl e | Inr mcol \<Rightarrow>
      case iloc (last_n (tail_length cfg) rcol) (- 1) of Inl e \<Rightarrow> Inl e | Inr x_last \<Rightarrow>
      case iloc (last_n (tail_length cfg) mcol) (- 1) of Inl e \<Rightarrow> Inl e | Inr y_last \<Rightarrow>
      case tails cfg rs_ratio_table rs_momentum_table rest of Inl e \<Rightarrow> Inl e | Inr ts \<Rightarrow>
        Inr ((name, last_n (tail_length cfg) rcol, last_n (tail_length cfg) mcol) # ts))"

text \<open>
  The whole computation, lines 137 to 331, and what the page then shows: the plot of the
  tails, the four counts and the ranking table. Every statement that can raise or stop
  comes before the first of these three outputs.
\<close>

record page =
  plotted :: "(string \<times> fl list \<times> fl list) list"
  counts :: "(string \<times> nat) list"
  ranking_df :: "row list"

definition prices_table :: "config \<Rightarrow> frame \<Rightarrow> error + frame" where
  "prices_table cfg bench_df =
     (case getitem bench_df ''Close'' of Inl e \<Rightarrow> Inl e | Inr close \<Rightarrow>
      case add_sectors cfg sectors (setitem \<lparr>index = [], columns = []\<rparr> ''Benchmark'' (index bench_df, close))
      of Inl e \<Rightarrow> Inl e
      | Inr prices \<Rightarrow> Inr (dropna (apply_timeframe cfg (dropna prices))))"

definition rotation :: "config \<Rightarrow> frame \<Rightarrow> error + page" where
  "rotation cfg prices =
     (case rs prices of Inl e \<Rightarrow> Inl e | Inr rs_table \<Rightarrow>
      case latest_data cfg (rs_ratio rs_table) (rs_momentum (rs_ratio rs_table)) sectors
      of Inl e \<Rightarrow> Inl e | Inr rows \<Rightarrow>
      case tails cfg (rs_ratio rs_table) (rs_momentum (rs_ratio rs_table)) sectors
      of Inl e \<Rightarrow> Inl e | Inr ts \<Rightarrow>
        Inr \<lparr>plotted = ts, counts = quadrant_counts (sort_values rows),
             ranking_df = sort_values rows\<rparr>)"

definition compute :: "config \<Rightarrow> error + page" where
  "compute cfg =
     (case first_benchmark (\<lambda>symbol. download cfg symbol (period cfg)) benchmark_candidates of
        None \<Rightarrow> Inl (Stop candidates_message)
      | Some found \<Rightarrow>
        if df_empty (download cfg (benchmark cfg) (period cfg))
           \<or> \<not> has_column (download cfg (benchmark cfg) (period cfg)) ''Close''
        then Inl (Stop benchmark_message)
        else (case prices_table cfg (download cfg (benchmark cfg) (period cfg)) of
                Inl e \<Rightarrow> Inl e
              | Inr prices \<Rightarrow> rotation cfg prices))"



subsection \<open>The rotation coordinates as the specification words them\<close>




subsection \<open>The ranking order as the specification words it\<close>

text \<open>
  Quadrant priority Leading, Improving, Weakening, Lagging; within a quadrant the larger
  RS-Ratio first. A row without RS-Ratio has no place in that order; pandas puts it
  after the rows of its quadrant that have one.
\<close>

definition priority :: "string \<Rightarrow> nat" where
  "priority q =
     (if q = ''Leading'' then 0 else if q = ''Improving'' then 1
      else if q = ''Weakening'' then 2 else 3)"

definition spec_ranked :: "row \<Rightarrow> row \<Rightarrow> bool" where
  "spec_ranked a b =
     (priority (quadrant a) < priority (quadrant b)
      \<or> (quadrant a = quadrant b
          \<and> (ratio b = NaN \<or> (ratio a \<noteq> NaN \<and> fl_ge (ratio a) (ratio b)))))"

text \<open>
  Provider answers for the examples: a frame of closing prices on consecutive days, flat
  prices on \<open>n\<close> days, and no data.
\<close>

definition price_frame :: "real list \<Rightarrow> frame" where
  "price_frame c = \<lparr>index = [0..<length c], columns = [(''Close'', map Fin c)]\<rparr>"


definition no_data :: frame where
  "no_data = \<lparr>index = [], columns = []\<rparr>"

definition daily_config :: "(string \<Rightarrow> string \<Rightarrow> frame) \<Rightarrow> config" where
  "daily_config dl =
     \<lparr>download = dl, period = ''2y'', benchmark = ''NIFTYBEES.NS'', rrg_timeframe = ''Daily'',
      mode = ''Positional'', week_of = (\<lambda>d. d div 7), month_of = (\<lambda>d. d div 30)\<rparr>"


definition rise20 :: "real list" where
  "rise20 = [1, 2, 3, 4, 5, 6, 7, 8, 9, 10, 11, 12, 13, 14, 15, 16, 17, 18, 19, 20]"

definition rise10 :: "real list" where
  "rise10 = [1, 2, 3, 4, 5, 6, 7, 8, 9, 10]"

definition rise21 :: "real list" where
  "rise21 = [1, 2, 3, 4, 5, 6, 7, 8, 9, 10, 11, 12, 13, 14, 15, 16, 17, 18, 19, 20, 21]"



text \<open>Last rows of a ratio and a momentum table with a sector in every quadrant.\<close>

definition ratio_table :: frame where
  "ratio_table =
     \<lparr>index = [0],
      columns = [(''Bank'', [Fin 98]), (''IT'', [Fin 103]), (''FMCG'', [Fin 99]),
                 (''Auto'', [Fin 101]), (''Pharma'', [Fin 104]), (''Metal'', [Fin 97]),
                 (''Energy'', [Fin 102])]\<rparr>"

definition momentum_table :: frame where
  "momentum_table =
     \<lparr>index = [0],
      columns = [(''Bank'', [Fin 99]), (''IT'', [Fin 101]), (''FMCG'', [Fin 102]),
                 (''Auto'', [Fin 98]), (''Pharma'', [Fin 100]), (''Metal'', [Fin 103]),
                 (''Energy'', [Fin 96])]\<rparr>"

section \<open>Properties of the classifier\<close>

text \<open>
  Claim C1. For every pair of real inputs the classifier returns Leading when both
  coordinates are at least 100, Weakening when the ratio is at least 100 and the momentum
  below 100, Lagging when both are below 100 and Improving when the ratio is below 100 and
  the momentum at least 100; equality to 100 takes the at-least branch on either axis, the
  four boundary points (100,100), (100,99.9), (99.9,100), (99.9,99.9) are Leading,
  Weakening, Improving, Lagging, and the result is always one of the four labels.
\<close>

theorem get_quadrant_real:
  fixes r m :: real
  shows "(100 \<le> r \<and> 100 \<le> m \<longrightarrow> get_quadrant (Fin r) (Fin m) = ''Leading'')
       \<and> (100 \<le> r \<and> m < 100 \<longrightarrow> get_quadrant (Fin r) (Fin m) = ''Weakening'')
       \<and> (r < 100 \<and> m < 100 \<longrightarrow> get_quadrant (Fin r) (Fin m) = ''Lagging'')
       \<and> (r < 100 \<and> 100 \<le> m \<longrightarrow> get_quadrant (Fin r) (Fin m) = ''Improving'')
       \<and> get_quadrant (Fin r) (Fin m) \<in> {''Leading'', ''Weakening'', ''Lagging'', ''Improving''}
       \<and> get_quadrant (Fin 100) (Fin 100) = ''Leading''
       \<and> get_quadrant (Fin 100) (Fin (999 / 10)) = ''Weakening''
       \<and> get_quadrant (Fin (999 / 10)) (Fin 100) = ''Improving''
       \<and> get_quadrant (Fin (999 / 10)) (Fin (999 / 10)) = ''Lagging''"
  by (simp add: get_quadrant_def fl_ge_def)

theorem get_quadrant_real_witness:
  "get_quadrant (Fin 100) (Fin 100) = ''Leading''
   \<and> get_quadrant (Fin 104) (Fin 97) = ''Weakening''
   \<and> get_quadrant (Fin 98) (Fin 97) = ''Lagging''
   \<and> get_quadrant (Fin 98) (Fin 100) = ''Improving''"
  using get_quadrant_real [of 100 100] get_quadrant_real [of 104 97]
    get_quadrant_real [of 98 97] get_quadrant_real [of 98 100]
  by simp

section \<open>Rolling windows\<close>

lemma window_nth:
  assumes "i < length xs"
  shows "window n i xs = map (nth xs) [i + 1 - n..<i + 1]"
proof -
  have "drop (i + 1 - n) (take (i + 1) (map (nth xs) [0..<length xs]))
        = map (nth xs) [i + 1 - n..<i + 1]"
    using assms by (simp add: take_map drop_map min_def)
  then show ?thesis by (simp add: window_def map_nth)
qed

lemma length_rolling_mean [simp]: "length (rolling_mean n xs) = length xs"
  by (simp add: rolling_mean_def)

lemma rolling_mean_nth:
  "i < length xs \<Longrightarrow>
   rolling_mean n xs ! i = window_mean n (map (nth xs) [i + 1 - n..<i + 1])"
  by (simp add: rolling_mean_def window_nth)

lemma fl_sum_Fin: "fl_sum (map Fin ws) = Fin (sum_list ws)"
  by (induction ws) simp_all

lemma filter_Fin: "filter (\<lambda>x. x \<noteq> NaN) (map Fin ws) = map Fin ws"
  by (induction ws) simp_all

lemma window_mean_Fin:
  "0 < n \<Longrightarrow> window_mean n (map Fin ws) =
     (if length ws < n then NaN else Fin (sum_list ws / real (length ws)))"
  by (auto simp add: window_mean_def filter_Fin fl_sum_Fin)




lemma rolling_mean_Fin:
  assumes "i < length xs" "n \<le> i + 1" "0 < n"
    and "\<And>k. i + 1 - n \<le> k \<Longrightarrow> k \<le> i \<Longrightarrow> xs ! k = Fin (f k)"
  shows "rolling_mean n xs ! i = Fin (sum_list (map f [i + 1 - n..<i + 1]) / real n)"
proof -
  have "map (nth xs) [i + 1 - n..<i + 1] = map Fin (map f [i + 1 - n..<i + 1])"
    unfolding map_map by (rule map_cong[OF refl]) (use assms(4) in auto)
  then have "rolling_mean n xs ! i = window_mean n (map Fin (map f [i + 1 - n..<i + 1]))"
    using assms(1) by (simp only: rolling_mean_nth)
  also have "\<dots> = Fin (sum_list (map f [i + 1 - n..<i + 1]) / real n)"
  proof -
    have len: "length (map f [i + 1 - n..<i + 1]) = n"
      using assms(2) by (simp del: upt_Suc)
    show ?thesis
      using assms(3) len by (simp only: window_mean_Fin) simp
  qed
  finally show ?thesis .
qed


lemma length_diff [simp]: "length (diff xs) = length xs"
  by (simp add: diff_def)

lemma length_gain [simp]: "length (gain xs) = length xs"
  by (simp add: gain_def)

lemma length_loss [simp]: "length (loss xs) = length xs"
  by (simp add: loss_def)

lemma length_rsi [simp]: "length (rsi xs) = length xs"
  by (simp add: rsi_def avg_gain_def avg_loss_def)

section \<open>The daily entry signal on finite prices\<close>

lemma diff_Fin_nth:
  "0 < k \<Longrightarrow> k < length c \<Longrightarrow> diff (map Fin c) ! k = Fin (c ! k - c ! (k - 1))"
  by (simp add: diff_def fl_sub_def)

lemma gain_Fin_nth:
  "0 < k \<Longrightarrow> k < length c \<Longrightarrow> gain (map Fin c) ! k = Fin (spec_gain c k)"
  by (simp add: gain_def diff_Fin_nth clip_lower_def spec_gain_def max_def)

lemma loss_Fin_nth:
  "0 < k \<Longrightarrow> k < length c \<Longrightarrow> loss (map Fin c) ! k = Fin (spec_loss c k)"
  by (simp add: loss_def diff_Fin_nth clip_upper_def fl_gt_def spec_loss_def max_def)

lemma avg_gain_nth:
  assumes "14 \<le> t" "t < length c"
  shows "avg_gain (map Fin c) ! t = Fin (spec_avg_gain c t)"
proof -
  have "rolling_mean 14 (gain (map Fin c)) ! t
        = Fin (sum_list (map (spec_gain c) [t + 1 - 14..<t + 1]) / real (14::nat))"
    using assms by (intro rolling_mean_Fin) (simp_all add: gain_Fin_nth)
  moreover have "t + 1 - 14 = t - 13" by simp
  ultimately show ?thesis by (simp add: avg_gain_def spec_avg_gain_def del: upt_Suc)
qed

lemma avg_loss_nth:
  assumes "14 \<le> t" "t < length c"
  shows "avg_loss (map Fin c) ! t = Fin (spec_avg_loss c t)"
proof -
  have "rolling_mean 14 (loss (map Fin c)) ! t
        = Fin (sum_list (map (spec_loss c) [t + 1 - 14..<t + 1]) / real (14::nat))"
    using assms by (intro rolling_mean_Fin) (simp_all add: loss_Fin_nth)
  moreover have "t + 1 - 14 = t - 13" by simp
  ultimately show ?thesis by (simp add: avg_loss_def spec_avg_loss_def del: upt_Suc)
qed

lemma sma20_nth:
  assumes "19 \<le> t" "t < length c"
  shows "sma20 (map Fin c) ! t = Fin (spec_sma20 c t)"
proof -
  have "rolling_mean 20 (map Fin c) ! t
        = Fin (sum_list (map (nth c) [t + 1 - 20..<t + 1]) / real (20::nat))"
    using assms by (intro rolling_mean_Fin) simp_all
  moreover have "t + 1 - 20 = t - 19" by simp
  ultimately show ?thesis by (simp add: sma20_def spec_sma20_def del: upt_Suc)
qed

lemma sum_list_nonneg_map: "(\<And>k. 0 \<le> f k) \<Longrightarrow> 0 \<le> sum_list (map f ks)" for f :: "nat \<Rightarrow> real"
  by (induction ks) simp_all

lemma spec_avg_gain_nonneg: "0 \<le> spec_avg_gain c t"
  unfolding spec_avg_gain_def by (intro divide_nonneg_pos sum_list_nonneg_map) (simp_all add: spec_gain_def)

lemma spec_avg_loss_nonneg: "0 \<le> spec_avg_loss c t"
  unfolding spec_avg_loss_def by (intro divide_nonneg_pos sum_list_nonneg_map) (simp_all add: spec_loss_def)

lemma rsi_of_ratio:
  assumes "0 \<le> g" "0 \<le> l"
  shows "rsi_of (fl_div (Fin g) (Fin l)) =
     (if l = 0 then (if g = 0 then NaN else Fin 100) else Fin (100 - 100 / (1 + g / l)))"
proof -
  have "1 + g / l \<noteq> 0" using assms by (smt (verit) divide_nonneg_nonneg)
  then show ?thesis using assms by (simp add: rsi_of_def fl_sub_def)
qed

lemma length_avg_gain [simp]: "length (avg_gain xs) = length xs"
  by (simp add: avg_gain_def)

lemma length_avg_loss [simp]: "length (avg_loss xs) = length xs"
  by (simp add: avg_loss_def)

lemma rsi_nth:
  assumes "14 \<le> t" "t < length c"
  shows "rsi (map Fin c) ! t = (case spec_rsi c t of None \<Rightarrow> NaN | Some r \<Rightarrow> Fin r)"
proof -
  have "rsi (map Fin c) ! t
        = rsi_of (fl_div (avg_gain (map Fin c) ! t) (avg_loss (map Fin c) ! t))"
    using assms by (simp add: rsi_def)
  then have "rsi (map Fin c) ! t
        = rsi_of (fl_div (Fin (spec_avg_gain c t)) (Fin (spec_avg_loss c t)))"
    using assms by (simp only: avg_gain_nth avg_loss_nth)
  then show ?thesis
    unfolding rsi_of_ratio [OF spec_avg_gain_nonneg spec_avg_loss_nonneg]
    by (simp add: spec_rsi_def)
qed

lemma iloc_last: "xs \<noteq> [] \<Longrightarrow> iloc xs (- 1) = Inr (xs ! (length xs - 1))"
  by (cases xs) (simp_all add: iloc_def)

lemma iloc_last_but_one: "2 \<le> length xs \<Longrightarrow> iloc xs (- 2) = Inr (xs ! (length xs - 2))"
  by (simp add: iloc_def nat_diff_distrib' int_ops)

lemma getitem_Some: "map_of (columns df) k = Some v \<Longrightarrow> getitem df k = Inr v"
  by (simp add: getitem_def)

lemma daily_entry_signal_short:
  "map_of (columns df) ''Close'' = Some close \<Longrightarrow> length close < 21 \<Longrightarrow>
   daily_entry_signal df = Inr ''NO''"
  by (simp add: daily_entry_signal_def getitem_Some)

lemma daily_entry_signal_long:
  assumes "map_of (columns df) ''Close'' = Some close" "21 \<le> length close"
  shows "daily_entry_signal df =
     Inr (if fl_gt (close ! (length close - 1)) (sma20 close ! (length close - 1))
             \<and> fl_gt (rsi close ! (length close - 1)) (Fin 55)
             \<and> fl_gt (rsi close ! (length close - 1)) (rsi close ! (length close - 2))
          then ''YES'' else ''NO'')"
proof -
  have ne: "close \<noteq> []" "sma20 close \<noteq> []" "rsi close \<noteq> []" and two: "2 \<le> length (rsi close)"
    using assms(2) by (auto simp: sma20_def rsi_def avg_gain_def avg_loss_def rolling_mean_def gain_def loss_def diff_def)
  have len: "length (sma20 close) = length close" by (simp add: sma20_def)
  show ?thesis
    using assms
    by (simp add: daily_entry_signal_def getitem_Some iloc_last [OF ne(1)] iloc_last [OF ne(2)]
        iloc_last [OF ne(3)] iloc_last_but_one [OF two] len)
qed

lemma daily_entry_signal_Fin:
  assumes "map_of (columns df) ''Close'' = Some (map Fin c)" "21 \<le> length c"
  shows "daily_entry_signal df =
     Inr (if spec_sma20 c (length c - 1) < c ! (length c - 1)
             \<and> spec_rsi_above c (length c - 1) 55 \<and> spec_rsi_rising c (length c - 1)
          then ''YES'' else ''NO'')"
proof -
  let ?t = "length c - 1"
  have t: "19 \<le> ?t" "14 \<le> ?t" "?t < length c" "14 \<le> ?t - 1" "?t - 1 < length c"
    "length c - 2 = ?t - 1"
    using assms(2) by simp_all
  have a: "fl_gt (map Fin c ! ?t) (sma20 (map Fin c) ! ?t) = (spec_sma20 c ?t < c ! ?t)"
    using t by (simp add: sma20_nth fl_gt_def)
  have b: "fl_gt (rsi (map Fin c) ! ?t) (Fin 55) = spec_rsi_above c ?t 55"
    using t by (simp add: rsi_nth fl_gt_def spec_rsi_above_def split: option.splits)
  have c: "fl_gt (rsi (map Fin c) ! ?t) (rsi (map Fin c) ! (?t - 1)) = spec_rsi_rising c ?t"
    using t by (simp add: rsi_nth fl_gt_def spec_rsi_rising_def split: option.splits)
  have "daily_entry_signal df =
     Inr (if fl_gt (map Fin c ! ?t) (sma20 (map Fin c) ! ?t)
             \<and> fl_gt (rsi (map Fin c) ! ?t) (Fin 55)
             \<and> fl_gt (rsi (map Fin c) ! ?t) (rsi (map Fin c) ! (?t - 1))
          then ''YES'' else ''NO'')"
    using daily_entry_signal_long [OF assms(1)] assms(2) t(6) by simp
  then show ?thesis by (simp only: a b c)
qed




text \<open>
  Claim C8. For every daily price series with fewer than 21 observations the signal is
  \<open>NO\<close>, whatever the prices (missing and infinite values included), and nothing is
  raised; a 10-point series yields \<open>NO\<close>.
\<close>

theorem daily_entry_signal_insufficient:
  "map_of (columns df) ''Close'' = Some close \<Longrightarrow> length close < 21 \<Longrightarrow>
   daily_entry_signal df = Inr ''NO''"
  by (rule daily_entry_signal_short)

theorem daily_entry_signal_insufficient_witness:
  "length rise10 = 10 \<and> daily_entry_signal (price_frame rise10) = Inr ''NO''"
  using daily_entry_signal_insufficient [of "price_frame rise10" "map Fin rise10"]
  by (simp add: price_frame_def rise10_def)



lemma sum_list_zero_map:
  "(\<And>k. k \<in> set ks \<Longrightarrow> f k = 0) \<Longrightarrow> sum_list (map f ks) = 0" for f :: "nat \<Rightarrow> real"
  by (induction ks) simp_all




lemma rsi_of_infinite: "rsi_of PInf = Fin 100 \<and> rsi_of MInf = Fin 100"
  by (simp add: rsi_of_def fl_sub_def)

lemma rsi_zero_loss:
  assumes "t < length close" "avg_loss close ! t = Fin 0" "avg_gain close ! t = Fin g" "0 < g"
  shows "rsi close ! t = Fin 100"
  using assms by (simp add: rsi_def rsi_of_def fl_sub_def)

lemma rising_step:
  assumes "sorted_wrt (<) c" "0 < k" "k < length c"
  shows "c ! (k - 1) < c ! k"
  using assms by (simp add: sorted_wrt_iff_nth_less)

lemma spec_loss_rising:
  "sorted_wrt (<) c \<Longrightarrow> 0 < k \<Longrightarrow> k < length c \<Longrightarrow> spec_loss c k = 0"
  using rising_step [of c k] by (simp add: spec_loss_def)

lemma spec_gain_rising:
  "sorted_wrt (<) c \<Longrightarrow> 0 < k \<Longrightarrow> k < length c \<Longrightarrow> 0 < spec_gain c k"
  using rising_step [of c k] by (simp add: spec_gain_def)

lemma sum_list_pos_map:
  "ks \<noteq> [] \<Longrightarrow> (\<And>k. k \<in> set ks \<Longrightarrow> 0 < f k) \<Longrightarrow> 0 < sum_list (map f ks)"
  for f :: "nat \<Rightarrow> real"
proof (induction ks)
  case Nil
  then show ?case by simp
next
  case (Cons k ks)
  show ?case
  proof (cases "ks = []")
    case True
    then show ?thesis using Cons.prems(2) by simp
  next
    case False
    then have "0 < sum_list (map f ks)" using Cons by simp
    moreover have "0 < f k" using Cons.prems(2) by simp
    ultimately show ?thesis by simp
  qed
qed

lemma spec_rsi_rising_series:
  assumes "sorted_wrt (<) c" "14 \<le> t" "t < length c"
  shows "spec_rsi c t = Some 100"
proof -
  have "sum_list (map (spec_loss c) [t - 13..<Suc t]) = 0"
    using assms by (intro sum_list_zero_map) (auto simp: spec_loss_rising)
  moreover have "0 < sum_list (map (spec_gain c) [t - 13..<Suc t])"
    using assms by (intro sum_list_pos_map) (auto simp: spec_gain_rising)
  ultimately show ?thesis
    by (simp add: spec_rsi_def spec_avg_gain_def spec_avg_loss_def del: upt_Suc)
qed

text \<open>
  Claim C3 states that a strictly increasing 20-point series has RSI 100 and is signalled
  \<open>YES\<close> when its last close is above the 20-period mean. The series 1, 2, ..., 20 is
  such a series, and the function answers \<open>NO\<close>: 20 observations are fewer than the 21
  the guard in line 33 asks for.
\<close>

theorem rising_series_signal_counterexample:
  "sorted_wrt (<) rise20 \<and> length rise20 = 20
   \<and> spec_sma20 rise20 19 < rise20 ! 19
   \<and> daily_entry_signal (price_frame rise20) = Inr ''NO''"
proof -
  have "sorted_wrt (<) rise20 \<and> length rise20 = 20 \<and> spec_sma20 rise20 19 < rise20 ! 19"
    by code_simp
  moreover have "daily_entry_signal (price_frame rise20) = Inr ''NO''"
    by (rule daily_entry_signal_short [of _ "map Fin rise20"])
       (simp_all add: price_frame_def rise20_def)
  ultimately show ?thesis by simp
qed

text \<open>
  Claim C3, amended. A zero 14-period average loss beside a positive average gain raises
  nothing and gives RSI 100. For a strictly increasing close series the RSI is 100 at
  every position from the fifteenth on, and the signal is \<open>NO\<close>: below 21 observations
  by the length guard, from 21 on because the preceding RSI is 100 as well, so the RSI
  is not rising.
\<close>

theorem zero_loss_rsi:
  assumes "sorted_wrt (<) c" and "map_of (columns df) ''Close'' = Some (map Fin c)"
  shows "(\<forall>t g. t < length close \<and> avg_loss close ! t = Fin 0 \<and> avg_gain close ! t = Fin g \<and> 0 < g
            \<longrightarrow> rsi close ! t = Fin 100)
       \<and> (\<forall>t. 14 \<le> t \<and> t < length c \<longrightarrow> rsi (map Fin c) ! t = Fin 100)
       \<and> daily_entry_signal df = Inr ''NO''"
proof (intro conjI allI impI)
  fix t g
  assume "t < length close \<and> avg_loss close ! t = Fin 0 \<and> avg_gain close ! t = Fin g \<and> 0 < g"
  then show "rsi close ! t = Fin 100" by (simp add: rsi_zero_loss)
next
  fix t
  assume "14 \<le> t \<and> t < length c"
  then show "rsi (map Fin c) ! t = Fin 100"
    using assms(1) by (simp add: rsi_nth spec_rsi_rising_series)
next
  show "daily_entry_signal df = Inr ''NO''"
  proof (cases "length c < 21")
    case True
    then show ?thesis using assms(2) by (simp add: daily_entry_signal_short)
  next
    case False
    then have len: "21 \<le> length c" by simp
    have "spec_rsi c (length c - 1) = Some 100" "spec_rsi c (length c - 1 - 1) = Some 100"
      using assms(1) len by (simp_all add: spec_rsi_rising_series)
    then have "\<not> spec_rsi_rising c (length c - 1)"
      by (simp add: spec_rsi_rising_def)
    then show ?thesis
      unfolding daily_entry_signal_Fin [OF assms(2) len] by simp
  qed
qed

theorem zero_loss_rsi_witness:
  "sorted_wrt (<) rise21
   \<and> avg_loss (map Fin rise21) ! 20 = Fin 0 \<and> avg_gain (map Fin rise21) ! 20 = Fin 1
   \<and> rsi (map Fin rise21) ! 20 = Fin 100
   \<and> daily_entry_signal (price_frame rise21) = Inr ''NO''"
proof -
  have s: "sorted_wrt (<) rise21" by code_simp
  have col: "map_of (columns (price_frame rise21)) ''Close'' = Some (map Fin rise21)"
    by (simp add: price_frame_def)
  have len: "length rise21 = 21" by (simp add: rise21_def)
  have av: "avg_loss (map Fin rise21) ! 20 = Fin 0 \<and> avg_gain (map Fin rise21) ! 20 = Fin 1"
    by (simp add: avg_gain_nth avg_loss_nth len) code_simp
  show ?thesis
    using zero_loss_rsi [OF s col, of "map Fin rise21"] av len s by simp
qed

section \<open>The run of the script\<close>




lemma set_column_keys: "set (map fst (set_column k v cs)) = insert k (set (map fst cs))"
proof (induction cs)
  case Nil
  then show ?case by simp
next
  case (Cons c cs)
  obtain k' v' where c: "c = (k', v')" by (cases c)
  show ?case
  proof (cases "k' = k")
    case True
    then show ?thesis by (simp add: c)
  next
    case False
    then show ?thesis using Cons.IH by (simp add: c insert_commute)
  qed
qed

lemma setitem_keys:
  "set (map fst (columns (setitem df name s))) = insert name (set (map fst (columns df)))"
proof -
  let ?cs = "map (\<lambda>(k, v). (k, replicate (length (fst s)) NaN)) (columns df)"
  have keys: "set (map fst ?cs) = set (map fst (columns df))"
    by (simp add: case_prod_beta comp_def)
  show ?thesis
  proof (cases "index df = [] \<and> snd s \<noteq> []")
    case True
    then have "columns (setitem df name s) = set_column name (snd s) ?cs"
      by (simp add: setitem_def)
    then show ?thesis by (simp only: set_column_keys keys)
  next
    case False
    then have "columns (setitem df name s)
               = set_column name (reindex (index df) s) (columns df)"
      by (auto simp add: setitem_def)
    then show ?thesis by (simp only: set_column_keys)
  qed
qed

lemma add_sectors_keys:
  "add_sectors cfg secs prices = Inr P \<Longrightarrow> k \<in> set (map fst (columns P)) \<Longrightarrow>
   k \<in> set (map fst (columns prices))
   \<or> (\<exists>t. (k, t) \<in> set secs \<and> \<not> df_empty (download cfg t (period cfg))
           \<and> has_column (download cfg t (period cfg)) ''Close'')"
proof (induction secs arbitrary: prices)
  case Nil
  then show ?case by simp
next
  case (Cons a secs)
  obtain name ticker where a: "a = (name, ticker)" by (cases a)
  let ?df = "download cfg ticker (period cfg)"
  show ?case
  proof (cases "df_empty ?df \<or> \<not> has_column ?df ''Close''")
    case True
    then have "add_sectors cfg secs prices = Inr P"
      using Cons.prems(1) by (simp add: a)
    from Cons.IH [OF this Cons.prems(2)] show ?thesis by auto
  next
    case False
    then obtain close where "getitem ?df ''Close'' = Inr close"
      and "add_sectors cfg secs (setitem prices name (index ?df, close)) = Inr P"
      using Cons.prems(1) by (auto simp: a Let_def split: sum.splits)
    from Cons.IH [OF this(2) Cons.prems(2)] False show ?thesis
      unfolding setitem_keys by (auto simp: a)
  qed
qed

lemma take_rows_keys: "map fst (columns (take_rows keep df)) = map fst (columns df)"
  by (simp add: take_rows_def case_prod_beta comp_def)

lemma prepared_keys:
  "map fst (columns (dropna (apply_timeframe cfg (dropna df)))) = map fst (columns df)"
  by (simp add: dropna_def apply_timeframe_def resample_last_def take_rows_keys)

lemma select_columns_present:
  "select_columns cols ks = Inr r \<Longrightarrow> k \<in> set ks \<Longrightarrow> k \<in> set (map fst cols)"
proof (induction ks arbitrary: r)
  case Nil
  then show ?case by simp
next
  case (Cons a ks)
  then show ?case
    by (auto split: option.splits sum.splits dest: map_of_SomeD intro: rev_image_eqI)
qed

lemma sector_ticker:
  "(name, t) \<in> set sectors \<Longrightarrow> (name, t') \<in> set sectors \<Longrightarrow> t = t'"
  by (auto simp: sectors_def)

lemma sector_not_benchmark: "(name, t) \<in> set sectors \<Longrightarrow> name \<noteq> ''Benchmark''"
  by (auto simp: sectors_def)

text \<open>
  The same holds for every answer of the provider: when a configured sector has no usable
  download, the run never reaches its outputs.
\<close>

lemma missing_sector_never_completes:
  assumes "(name, ticker) \<in> set sectors"
    and "df_empty (download cfg ticker (period cfg))
         \<or> \<not> has_column (download cfg ticker (period cfg)) ''Close''"
  shows "\<exists>e. compute cfg = Inl e"
proof (rule ccontr)
  assume "\<not> (\<exists>e. compute cfg = Inl e)"
  then obtain out where out: "compute cfg = Inr out" by (cases "compute cfg") auto
  let ?bench = "download cfg (benchmark cfg) (period cfg)"
  from out obtain prices where pt: "prices_table cfg ?bench = Inr prices"
    and rot: "rotation cfg prices = Inr out"
    by (auto simp: compute_def split: option.splits if_splits sum.splits)
  from pt obtain close P where
    P: "add_sectors cfg sectors (setitem \<lparr>index = [], columns = []\<rparr> ''Benchmark'' (index ?bench, close)) = Inr P"
    and prices: "prices = dropna (apply_timeframe cfg (dropna P))"
    by (auto simp: prices_table_def split: sum.splits)
  from rot obtain sel where "select_columns (columns prices) (map fst sectors) = Inr sel"
    by (auto simp: rotation_def rs_def split: sum.splits)
  moreover have "name \<in> set (map fst sectors)" using assms(1) by force
  ultimately have "name \<in> set (map fst (columns prices))" by (rule select_columns_present)
  then have "name \<in> set (map fst (columns P))" by (simp only: prices prepared_keys)
  from add_sectors_keys [OF P this] sector_not_benchmark [OF assms(1)]
  obtain t where "(name, t) \<in> set sectors" "\<not> df_empty (download cfg t (period cfg))"
    "has_column (download cfg t (period cfg)) ''Close''"
    unfolding setitem_keys by auto
  with sector_ticker [OF assms(1)] assms(2) show False by auto
qed


section \<open>Rotation coordinates\<close>


lemma select_columns_keys:
  "select_columns cols ks = Inr r \<Longrightarrow> map fst r = ks"
  by (induction ks arbitrary: r) (auto split: option.splits sum.splits)


lemma length_ratio_to_rolling_mean [simp]:
  "length (ratio_to_rolling_mean v) = length v"
  by (simp add: ratio_to_rolling_mean_def)


lemma fl_div_NaN_right [simp]: "fl_div x NaN = NaN"
  by (cases x) simp_all














lemma latest_data_rows:
  "latest_data cfg R M secs = Inr rows \<Longrightarrow>
   list_all2 (\<lambda>(name, ticker) x. \<exists>rcol mcol r m.
        getitem R name = Inr rcol \<and> iloc rcol (- 1) = Inr r
      \<and> getitem M name = Inr mcol \<and> iloc mcol (- 1) = Inr m
      \<and> sector x = name \<and> ratio x = round2 r \<and> momentum x = round2 m
      \<and> quadrant x = get_quadrant r m) secs rows"
proof (induction secs arbitrary: rows)
  case Nil
  then show ?case by simp
next
  case (Cons a secs)
  obtain name ticker where a: "a = (name, ticker)" by (cases a)
  show ?case
    using Cons.prems Cons.IH unfolding a
    by (auto split: sum.splits)
qed

lemma latest_data_row_for:
  assumes "latest_data cfg R M secs = Inr rows" "x \<in> set rows"
  shows "\<exists>rcol mcol r m.
        getitem R (sector x) = Inr rcol \<and> iloc rcol (- 1) = Inr r
      \<and> getitem M (sector x) = Inr mcol \<and> iloc mcol (- 1) = Inr m
      \<and> ratio x = round2 r \<and> momentum x = round2 m \<and> quadrant x = get_quadrant r m"
proof -
  from assms(2) obtain i where i: "i < length rows" "rows ! i = x"
    by (auto simp: in_set_conv_nth)
  from latest_data_rows [OF assms(1)] i obtain name ticker where
    "secs ! i = (name, ticker)"
    "\<exists>rcol mcol r m.
        getitem R name = Inr rcol \<and> iloc rcol (- 1) = Inr r
      \<and> getitem M name = Inr mcol \<and> iloc mcol (- 1) = Inr m
      \<and> sector x = name \<and> ratio x = round2 r \<and> momentum x = round2 m
      \<and> quadrant x = get_quadrant r m"
    by (cases "secs ! i") (auto simp: list_all2_conv_all_nth)
  then show ?thesis by auto
qed



section \<open>Ranking and counts\<close>

lemma mset_insort_by: "mset (insort_by le x xs) = add_mset x (mset xs)"
  by (induction xs) simp_all

lemma mset_sort_values: "mset (sort_values rows) = mset rows"
  by (induction rows) (simp_all add: sort_values_def mset_insort_by)

lemma set_insort_by: "set (insort_by le x xs) = insert x (set xs)"
  by (induction xs) auto

lemma sorted_insort_by:
  assumes total: "\<And>a b. le a b \<or> le b a"
    and trans: "\<And>a b c. le a b \<Longrightarrow> le b c \<Longrightarrow> le a c"
  shows "sorted_wrt le xs \<Longrightarrow> sorted_wrt le (insort_by le x xs)"
proof (induction xs)
  case Nil
  then show ?case by simp
next
  case (Cons y ys)
  show ?case
  proof (cases "le x y")
    case True
    then have "\<forall>z\<in>set ys. le x z" using Cons.prems trans by auto
    then show ?thesis using True Cons.prems by simp
  next
    case False
    then have "le y x" using total by blast
    then show ?thesis using False Cons by (auto simp: set_insort_by)
  qed
qed

lemma ascending_le_total: "ascending_le a b \<or> ascending_le b a"
  by (cases a; cases b) (auto simp: ascending_le_def)

lemma ascending_le_trans: "ascending_le a b \<Longrightarrow> ascending_le b c \<Longrightarrow> ascending_le a c"
  by (cases a; cases b; cases c) (auto simp: ascending_le_def)

lemma ascending_le_antisym: "ascending_le a b \<Longrightarrow> ascending_le b a \<Longrightarrow> a = b"
  by (cases a; cases b) (auto simp: ascending_le_def)

lemma descending_le_total: "descending_le a b \<or> descending_le b a"
  by (cases a; cases b) (auto simp: descending_le_def fl_ge_def)

lemma descending_le_trans: "descending_le a b \<Longrightarrow> descending_le b c \<Longrightarrow> descending_le a c"
  by (cases a; cases b; cases c) (auto simp: descending_le_def fl_ge_def)

lemma row_le_total: "row_le a b \<or> row_le b a"
  using ascending_le_total [of "order_key a" "order_key b"]
    descending_le_total [of "ratio a" "ratio b"]
  by (auto simp: row_le_def)

lemma row_le_trans:
  assumes "row_le a b" "row_le b c"
  shows "row_le a c"
proof (cases "order_key a = order_key b")
  case ab: True
  show ?thesis
  proof (cases "order_key b = order_key c")
    case True
    then show ?thesis using ab assms descending_le_trans by (auto simp: row_le_def)
  next
    case False
    then show ?thesis using ab assms by (auto simp: row_le_def)
  qed
next
  case ab: False
  show ?thesis
  proof (cases "order_key b = order_key c")
    case True
    then show ?thesis using ab assms by (auto simp: row_le_def)
  next
    case False
    have 1: "ascending_le (order_key a) (order_key b)" using ab assms(1) by (simp add: row_le_def)
    have 2: "ascending_le (order_key b) (order_key c)" using False assms(2) by (simp add: row_le_def)
    have "order_key a \<noteq> order_key c"
      using 1 2 ab ascending_le_antisym by metis
    then show ?thesis using ascending_le_trans [OF 1 2] by (simp add: row_le_def)
  qed
qed

lemma sorted_sort_values: "sorted_wrt row_le (sort_values rows)"
proof (induction rows)
  case Nil
  then show ?case by (simp add: sort_values_def)
next
  case (Cons x rows)
  have "sorted_wrt row_le (insort_by row_le x (sort_values rows))"
    using Cons by (intro sorted_insort_by) (auto intro: row_le_trans simp: row_le_total)
  then show ?case by (simp add: sort_values_def)
qed

lemma get_quadrant_range:
  "get_quadrant r m \<in> {''Leading'', ''Improving'', ''Weakening'', ''Lagging''}"
  by (simp add: get_quadrant_def)

lemma latest_data_quadrants:
  assumes "latest_data cfg R M secs = Inr rows" "x \<in> set rows"
  shows "quadrant x \<in> {''Leading'', ''Improving'', ''Weakening'', ''Lagging''}"
  using latest_data_row_for [OF assms] get_quadrant_range by metis

lemma latest_data_sectors:
  "latest_data cfg R M secs = Inr rows \<Longrightarrow> map sector rows = map fst secs"
proof (induction secs arbitrary: rows)
  case Nil
  then show ?case by simp
next
  case (Cons a secs)
  obtain name ticker where a: "a = (name, ticker)" by (cases a)
  show ?case
    using Cons.prems Cons.IH unfolding a by (auto split: sum.splits)
qed

lemma row_le_spec_ranked:
  assumes "quadrant a \<in> {''Leading'', ''Improving'', ''Weakening'', ''Lagging''}"
    and "quadrant b \<in> {''Leading'', ''Improving'', ''Weakening'', ''Lagging''}"
    and "row_le a b"
  shows "spec_ranked a b"
  using assms
  by (auto simp: row_le_def spec_ranked_def order_key_def quadrant_order_def priority_def
      ascending_le_def descending_le_def split: if_splits)

text \<open>
  Claim C6. The ranking is total and ordered: the sorted table is a rearrangement of the
  rows of the loop, which are one per sector of the tables, and it is sorted by quadrant
  priority Leading, Improving, Weakening, Lagging and, within a quadrant, by RS-Ratio
  descending (a row whose RS-Ratio is missing after those that have one).
\<close>

theorem ranking_sorted:
  assumes "latest_data cfg R M sectors = Inr rows"
  shows "mset (sort_values rows) = mset rows
       \<and> mset (map sector (sort_values rows)) = mset (map fst sectors)
       \<and> distinct (map sector (sort_values rows))
       \<and> sorted_wrt spec_ranked (sort_values rows)"
proof -
  have m: "mset (sort_values rows) = mset rows" by (rule mset_sort_values)
  then have "mset (map sector (sort_values rows)) = mset (map sector rows)"
    by (metis mset_map)
  then have s: "mset (map sector (sort_values rows)) = mset (map fst sectors)"
    using latest_data_sectors [OF assms] by simp
  have "distinct (map fst sectors)" by (simp add: sectors_def)
  then have d: "distinct (map sector (sort_values rows))"
    using s by (metis mset_eq_imp_distinct_iff)
  have "set (sort_values rows) = set rows" using m by (metis mset_eq_setD)
  then have q: "quadrant x \<in> {''Leading'', ''Improving'', ''Weakening'', ''Lagging''}"
    if "x \<in> set (sort_values rows)" for x
    using that latest_data_quadrants [OF assms] by simp
  have "sorted_wrt spec_ranked (sort_values rows)"
    using sorted_sort_values
    by (rule sorted_wrt_mono_rel [rotated]) (rule row_le_spec_ranked [OF q q])
  with m s d show ?thesis by simp
qed

theorem ranking_sorted_witness:
  "(case latest_data (daily_config (\<lambda>t p. no_data)) ratio_table momentum_table sectors of
      Inl e \<Rightarrow> False
    | Inr rows \<Rightarrow>
        map (\<lambda>x. (sector x, quadrant x, ratio x)) (sort_values rows)
          = [(''Pharma'', ''Leading'', Fin 104), (''IT'', ''Leading'', Fin 103),
             (''FMCG'', ''Improving'', Fin 99), (''Metal'', ''Improving'', Fin 97),
             (''Energy'', ''Weakening'', Fin 102), (''Auto'', ''Weakening'', Fin 101),
             (''Bank'', ''Lagging'', Fin 98)]
        \<and> sorted_wrt spec_ranked (sort_values rows)
        \<and> distinct (map sector (sort_values rows)))"
proof (cases "latest_data (daily_config (\<lambda>t p. no_data)) ratio_table momentum_table sectors")
  case (Inl e)
  moreover have "\<not> isl (latest_data (daily_config (\<lambda>t p. no_data)) ratio_table momentum_table sectors)"
    by code_simp
  ultimately show ?thesis by simp
next
  case (Inr rows)
  have "case latest_data (daily_config (\<lambda>t p. no_data)) ratio_table momentum_table sectors of
      Inl e \<Rightarrow> False
    | Inr rows \<Rightarrow>
        map (\<lambda>x. (sector x, quadrant x, ratio x)) (sort_values rows)
          = [(''Pharma'', ''Leading'', Fin 104), (''IT'', ''Leading'', Fin 103),
             (''FMCG'', ''Improving'', Fin 99), (''Metal'', ''Improving'', Fin 97),
             (''Energy'', ''Weakening'', Fin 102), (''Auto'', ''Weakening'', Fin 101),
             (''Bank'', ''Lagging'', Fin 98)]"
    by code_simp
  then show ?thesis
    using ranking_sorted [OF Inr] Inr by simp
qed






end
